theory Spec2Isabelle
  imports Main "HOL-Library.Log_Nat"
begin

section \<open>Python values\<close>

text \<open>
  The inventory module is dynamically typed: every operation tests the run-time
  type of its arguments (\<^verbatim>\<open>isinstance\<close>) or coerces them (\<^verbatim>\<open>int(...)\<close>).  The
  arguments, and the data \<^verbatim>\<open>json.load\<close> returns, are therefore values of one
  datatype of Python objects.  A dictionary is an association list in insertion
  order; its keys are strings, which is all JSON objects have.  A string is a \<^verbatim>\<open>str\<close>
  whose code points are below 256: a character is a code point.

  A float is a binary64 number.  \<open>Fin r\<close> is the finite float of value \<open>r\<close>; the
  sign of zero is not kept, since no operation of the module observes it outside
  printed text.  Arithmetic rounds its results to binary64.

  The interpreter is taken in its default configuration, with memory to spare.  Writing
  to the log and to standard output is taken to succeed.
\<close>

datatype pyfloat = Fin rat | PosInf | NegInf | NaN

datatype pyval =
    PNone
  | PBool bool
  | PInt int
  | PFloat pyfloat
  | PStr string
  | PList "pyval list"
  | PDict "(string \<times> pyval) list"

text \<open>A stored quantity: what \<^verbatim>\<open>stock_data.get(item, 0) + qty\<close> and \<^verbatim>\<open>int(v)\<close> produce.\<close>

datatype num = NInt int | NFloat pyfloat

text \<open>The exceptions that can leave an operation of the module.\<close>

datatype exn =
    TypeError | ValueError | OverflowError | AttributeError
  | OSError | UnicodeDecodeError | RecursionError

subsection \<open>Binary64 arithmetic\<close>

definition pow2 :: "int \<Rightarrow> rat" where
  "pow2 e = (if 0 \<le> e then of_int (2 ^ nat e) else 1 / of_int (2 ^ nat (- e)))"

text \<open>\<open>floor_log2 r\<close> is the exponent \<open>e\<close> with \<open>2^e \<le> r < 2^(e+1)\<close>, for \<open>r > 0\<close>.\<close>

definition floor_log2 :: "rat \<Rightarrow> int" where
  "floor_log2 r =
     (let (p, q) = quotient_of r;
          e = bitlen p - bitlen q
      in if pow2 e \<le> r then e else e - 1)"

definition round_half_even :: "rat \<Rightarrow> int" where
  "round_half_even r =
     (let f = \<lfloor>r\<rfloor>; d = r - of_int f
      in if d < 1 / 2 then f
         else if 1 / 2 < d then f + 1
         else if even f then f else f + 1)"

text \<open>
  Round to nearest, ties to even, with 53 bits of precision, gradual underflow below
  \<open>2^-1022\<close> and overflow to infinity from \<open>2^1024\<close>.  With \<open>e\<close> the exponent of \<open>r\<close>
  and \<open>n\<close> the rounded significand, \<open>\<bar>n\<bar> \<le> 2^53\<close>, so the rounded value \<open>n * 2^(e - 52)\<close>
  reaches \<open>2^1024\<close> exactly when \<open>e \<ge> 1024\<close>, or \<open>e = 1023\<close> and \<open>\<bar>n\<bar> = 2^53\<close>.
\<close>

definition round64 :: "rat \<Rightarrow> pyfloat" where
  "round64 r =
     (if r = 0 then Fin 0
      else let e = max (floor_log2 \<bar>r\<bar>) (- 1022);
               q = pow2 (e - 52);
               n = round_half_even (r / q)
           in if 1024 \<le> e \<or> (e = 1023 \<and> 2 ^ 53 \<le> \<bar>n\<bar>)
              then (if 0 < r then PosInf else NegInf)
              else Fin (of_int n * q))"

text \<open>
  An int operand of a float operation is converted first; the conversion raises
  \<^verbatim>\<open>OverflowError\<close> (``int too large to convert to float'').
\<close>

definition int_to_float :: "int \<Rightarrow> exn + pyfloat" where
  "int_to_float n =
     (case round64 (of_int n) of Fin m \<Rightarrow> Inr (Fin m) | _ \<Rightarrow> Inl OverflowError)"

fun fneg :: "pyfloat \<Rightarrow> pyfloat" where
  "fneg (Fin r) = Fin (- r)"
| "fneg PosInf = NegInf"
| "fneg NegInf = PosInf"
| "fneg NaN = NaN"

fun fadd :: "pyfloat \<Rightarrow> pyfloat \<Rightarrow> pyfloat" where
  "fadd NaN _ = NaN"
| "fadd _ NaN = NaN"
| "fadd PosInf NegInf = NaN"
| "fadd NegInf PosInf = NaN"
| "fadd PosInf _ = PosInf"
| "fadd _ PosInf = PosInf"
| "fadd NegInf _ = NegInf"
| "fadd _ NegInf = NegInf"
| "fadd (Fin a) (Fin b) = round64 (a + b)"

definition fsub :: "pyfloat \<Rightarrow> pyfloat \<Rightarrow> pyfloat" where
  "fsub a b = fadd a (fneg b)"

text \<open>\<^verbatim>\<open>int(x)\<close> of a float truncates toward zero; it raises on NaN and on the infinities.\<close>

definition trunc_rat :: "rat \<Rightarrow> int" where
  "trunc_rat r = (if 0 \<le> r then \<lfloor>r\<rfloor> else \<lceil>r\<rceil>)"

fun float_to_int :: "pyfloat \<Rightarrow> exn + int" where
  "float_to_int (Fin r) = Inr (trunc_rat r)"
| "float_to_int NaN = Inl ValueError"
| "float_to_int PosInf = Inl OverflowError"
| "float_to_int NegInf = Inl OverflowError"

text \<open>Comparison of a float with an int is exact; every comparison with NaN is false.\<close>

fun float_lt_int :: "pyfloat \<Rightarrow> int \<Rightarrow> bool" where
  "float_lt_int (Fin r) n = (r < of_int n)"
| "float_lt_int NegInf n = True"
| "float_lt_int PosInf n = False"
| "float_lt_int NaN n = False"

fun float_le_int :: "pyfloat \<Rightarrow> int \<Rightarrow> bool" where
  "float_le_int (Fin r) n = (r \<le> of_int n)"
| "float_le_int NegInf n = True"
| "float_le_int PosInf n = False"
| "float_le_int NaN n = False"

subsection \<open>Arithmetic on quantities\<close>

fun py_add :: "num \<Rightarrow> num \<Rightarrow> exn + num" where
  "py_add (NInt a) (NInt b) = Inr (NInt (a + b))"
| "py_add (NInt a) (NFloat g) =
     (case int_to_float a of Inl e \<Rightarrow> Inl e | Inr f \<Rightarrow> Inr (NFloat (fadd f g)))"
| "py_add (NFloat f) (NInt b) =
     (case int_to_float b of Inl e \<Rightarrow> Inl e | Inr g \<Rightarrow> Inr (NFloat (fadd f g)))"
| "py_add (NFloat f) (NFloat g) = Inr (NFloat (fadd f g))"

text \<open>\<open>py_sub v q\<close> is \<^verbatim>\<open>v - q\<close> for an int \<open>q\<close>.\<close>

fun py_sub :: "num \<Rightarrow> int \<Rightarrow> exn + num" where
  "py_sub (NInt a) q = Inr (NInt (a - q))"
| "py_sub (NFloat f) q =
     (case int_to_float q of Inl e \<Rightarrow> Inl e | Inr g \<Rightarrow> Inr (NFloat (fsub f g)))"

fun num_lt :: "num \<Rightarrow> int \<Rightarrow> bool" where
  "num_lt (NInt a) n = (a < n)"
| "num_lt (NFloat f) n = float_lt_int f n"

fun num_le :: "num \<Rightarrow> int \<Rightarrow> bool" where
  "num_le (NInt a) n = (a \<le> n)"
| "num_le (NFloat f) n = float_le_int f n"

text \<open>\<open>num_eq\<close> is Python's \<^verbatim>\<open>==\<close> on two quantities (exact between int and float).\<close>

fun num_eq :: "num \<Rightarrow> num \<Rightarrow> bool" where
  "num_eq (NInt a) (NInt b) = (a = b)"
| "num_eq (NInt a) (NFloat (Fin r)) = (of_int a = r)"
| "num_eq (NFloat (Fin r)) (NInt b) = (r = of_int b)"
| "num_eq (NFloat (Fin r)) (NFloat (Fin s)) = (r = s)"
| "num_eq (NFloat PosInf) (NFloat PosInf) = True"
| "num_eq (NFloat NegInf) (NFloat NegInf) = True"
| "num_eq _ _ = False"

fun num_int :: "num \<Rightarrow> exn + int" where
  "num_int (NInt n) = Inr n"
| "num_int (NFloat f) = float_to_int f"

subsection \<open>Type tests and coercions\<close>

text \<open>
  \<^verbatim>\<open>isinstance(qty, (int, float))\<close>: \<^verbatim>\<open>bool\<close> is a subclass of \<^verbatim>\<open>int\<close>, and
  \<^verbatim>\<open>True\<close> counts as 1 in arithmetic.
\<close>

fun as_num :: "pyval \<Rightarrow> num option" where
  "as_num (PInt n) = Some (NInt n)"
| "as_num (PBool b) = Some (NInt (if b then 1 else 0))"
| "as_num (PFloat f) = Some (NFloat f)"
| "as_num _ = None"

fun pyval_of_num :: "num \<Rightarrow> pyval" where
  "pyval_of_num (NInt n) = PInt n"
| "pyval_of_num (NFloat f) = PFloat f"

text \<open>
  \<^verbatim>\<open>int(s)\<close> of a string: surrounding whitespace is dropped, then an optional sign,
  then decimal digits, single underscores allowed between digits.  The whitespace
  \<^verbatim>\<open>int\<close> drops is the space, the characters 9 to 13 and, beyond ASCII, the next-line
  character 133 and the no-break space 160; the characters 28 to 31 are not dropped.
  Below 256 the only decimal digits are the ASCII ones.
\<close>

text \<open>
  The interpreter bounds the conversions between an int and its decimal text: with the
  default bound (Python 3.11 and later), a conversion of more than 4300 digits raises
  \<^verbatim>\<open>ValueError\<close>.  The sign, underscores and surrounding whitespace do not count.
\<close>

definition max_str_digits :: nat where
  "max_str_digits = 4300"

text \<open>The number of decimal digits of an integer \<open>n \<ge> 0\<close>.\<close>

function ndigits :: "int \<Rightarrow> nat" where
  "ndigits n = (if n < 10 then 1 else Suc (ndigits (n div 10)))"
  by pat_completeness auto
termination
  by (relation "measure (\<lambda>n. nat n)") auto

declare ndigits.simps [simp del]

text \<open>\<^verbatim>\<open>str(n)\<close> returns: in an f-string, in \<^verbatim>\<open>print\<close>, in \<^verbatim>\<open>json.dump\<close>.\<close>

definition renders :: "int \<Rightarrow> bool" where
  "renders n = (ndigits \<bar>n\<bar> \<le> max_str_digits)"

fun printable :: "num \<Rightarrow> bool" where
  "printable (NInt n) = renders n"
| "printable (NFloat f) = True"

fun formats :: "pyval \<Rightarrow> bool" where
  "formats (PInt n) = renders n"
| "formats _ = True"

definition is_space :: "char \<Rightarrow> bool" where
  "is_space c =
     (let n = (of_char c :: nat) in (9 \<le> n \<and> n \<le> 13) \<or> n = 32 \<or> n = 133 \<or> n = 160)"

definition is_digit :: "char \<Rightarrow> bool" where
  "is_digit c = (let n = (of_char c :: nat) in 48 \<le> n \<and> n \<le> 57)"

definition digit_val :: "char \<Rightarrow> int" where
  "digit_val c = of_char c - 48"

fun digits_val :: "int \<Rightarrow> string \<Rightarrow> int option" where
  "digits_val acc [] = Some acc"
| "digits_val acc (c # cs) =
     (if is_digit c then digits_val (10 * acc + digit_val c) cs
      else if c = CHR ''_'' \<and> cs \<noteq> [] \<and> is_digit (hd cs) then digits_val acc cs
      else None)"

definition parse_nat :: "string \<Rightarrow> int option" where
  "parse_nat s =
     (case s of
        [] \<Rightarrow> None
      | c # _ \<Rightarrow>
          if is_digit c \<and> length (filter is_digit s) \<le> max_str_digits
          then digits_val 0 s else None)"

definition strip :: "string \<Rightarrow> string" where
  "strip s = rev (dropWhile is_space (rev (dropWhile is_space s)))"

definition parse_int :: "string \<Rightarrow> int option" where
  "parse_int s =
     (case strip s of
        [] \<Rightarrow> None
      | c # cs \<Rightarrow>
          if c = CHR ''-'' then map_option uminus (parse_nat cs)
          else if c = CHR ''+'' then parse_nat cs
          else parse_nat (c # cs))"

fun py_int :: "pyval \<Rightarrow> exn + int" where
  "py_int (PInt n) = Inr n"
| "py_int (PBool b) = Inr (if b then 1 else 0)"
| "py_int (PFloat f) = float_to_int f"
| "py_int (PStr s) = (case parse_int s of Some n \<Rightarrow> Inr n | None \<Rightarrow> Inl ValueError)"
| "py_int PNone = Inl TypeError"
| "py_int (PList _) = Inl TypeError"
| "py_int (PDict _) = Inl TypeError"

text \<open>The handler \<^verbatim>\<open>except (TypeError, ValueError)\<close>.\<close>

fun caught :: "exn \<Rightarrow> bool" where
  "caught TypeError = True"
| "caught ValueError = True"
| "caught _ = False"

section \<open>Dictionaries\<close>

text \<open>
  A \<^verbatim>\<open>dict\<close> keeps insertion order: assigning to a present key keeps its place,
  assigning to a new key appends, \<^verbatim>\<open>del\<close> removes the entry.
\<close>

type_synonym store = "(string \<times> num) list"

fun dict_get :: "(string \<times> 'v) list \<Rightarrow> string \<Rightarrow> 'v option" where
  "dict_get [] k = None"
| "dict_get ((a, b) # ps) k = (if a = k then Some b else dict_get ps k)"

fun dict_set :: "string \<Rightarrow> 'v \<Rightarrow> (string \<times> 'v) list \<Rightarrow> (string \<times> 'v) list" where
  "dict_set k v [] = [(k, v)]"
| "dict_set k v ((a, b) # ps) = (if a = k then (a, v) # ps else (a, b) # dict_set k v ps)"

fun dict_del :: "string \<Rightarrow> (string \<times> 'v) list \<Rightarrow> (string \<times> 'v) list" where
  "dict_del k [] = []"
| "dict_del k ((a, b) # ps) = (if a = k then ps else (a, b) # dict_del k ps)"

section \<open>The state of the module and its environment\<close>

text \<open>
  What \<^verbatim>\<open>load_data\<close> finds at a path:
  \<^item> \<open>Absent\<close>: \<^verbatim>\<open>path.exists()\<close> is false (no such file, or a path \<^verbatim>\<open>stat\<close> rejects, as
    one holding a NUL character);
  \<^item> \<open>Unsearchable\<close>: \<^verbatim>\<open>path.exists()\<close> itself raises \<^verbatim>\<open>OSError\<close> (a name that is too
    long, a directory that may not be searched);
  \<^item> \<open>Unreadable\<close>: the file cannot be opened or read (\<^verbatim>\<open>OSError\<close>);
  \<^item> \<open>Corrupt\<close>: its text is not JSON (\<^verbatim>\<open>JSONDecodeError\<close>);
  \<^item> \<open>Undecodable\<close>: its bytes are not UTF-8 (\<^verbatim>\<open>UnicodeDecodeError\<close>);
  \<^item> \<open>TooDeep\<close>: its JSON is nested beyond the recursion limit (\<^verbatim>\<open>RecursionError\<close>);
  \<^item> \<open>Oversized\<close>: its JSON holds an integer of more digits than the interpreter
    converts (\<^verbatim>\<open>ValueError\<close>, which is not a \<^verbatim>\<open>JSONDecodeError\<close>);
  \<^item> \<open>Parsed v\<close>: its text parses, and \<^verbatim>\<open>json.load\<close> returns \<open>v\<close>.

  The keys of a parsed object are distinct in Python; no definition below relies on it.
\<close>

datatype fnode =
    Absent | Unsearchable | Unreadable | Corrupt | Undecodable | TooDeep | Oversized
  | Parsed pyval

text \<open>
  What the file system does with a write at a path:
  \<^item> \<open>WriteOk\<close>: it succeeds;
  \<^item> \<open>OpenRejects\<close>: \<^verbatim>\<open>open\<close> raises \<^verbatim>\<open>ValueError\<close>, as it does for a path holding a
    NUL character;
  \<^item> \<open>OpenFails\<close>: \<^verbatim>\<open>open\<close> raises \<^verbatim>\<open>OSError\<close>;
  \<^item> \<open>WriteFails\<close>: the file is opened (and truncated) and \<^verbatim>\<open>json.dump\<close> raises
    \<^verbatim>\<open>OSError\<close> while writing;
  \<^item> \<open>FlushFails\<close>: \<^verbatim>\<open>json.dump\<close> returns, its output still buffered, and closing the
    file raises \<^verbatim>\<open>OSError\<close>, after the record ``saved'' was logged;
  \<^item> \<open>DumpRejects\<close>: the file is opened (and truncated) and \<^verbatim>\<open>json.dump\<close> raises
    \<^verbatim>\<open>ValueError\<close>, as it does at an integer of more digits than the interpreter
    converts.
\<close>

datatype wres = WriteOk | OpenRejects | OpenFails | WriteFails | FlushFails | DumpRejects

datatype level = INFO | WARNING | ERROR

text \<open>
  Lines of the report on standard output, and of the caller's audit buffer, are kept
  structured: \<open>ItemLine item quantity\<close> stands for \<^verbatim>\<open>"<item> -> <quantity>"\<close> and
  \<open>Added qty item\<close> for \<^verbatim>\<open>"<now>: Added <qty> of <item>"\<close>.  A record of the logger is
  a call of the logger: its level and its format string.  The arguments are rendered
  inside the logging module, which raises nothing to the caller.
\<close>

datatype out_line = Header | ItemLine string num

datatype audit = Added pyval string

text \<open>
  The \<^verbatim>\<open>logs\<close> argument of \<^verbatim>\<open>add_item\<close>: \<^verbatim>\<open>None\<close>, a list, or any other object
  (which has no \<^verbatim>\<open>append\<close>).
\<close>

datatype logs_arg = LNone | LList "audit list" | LOther pyval

record world =
  stock_data :: store
  files :: "string \<Rightarrow> fnode"
  write_result :: "string \<Rightarrow> wres"
  logger :: "(level \<times> string) list"
  stdout :: "out_line list"

definition log_msg :: "level \<Rightarrow> string \<Rightarrow> world \<Rightarrow> world" where
  "log_msg l m w = w\<lparr>logger := logger w @ [(l, m)]\<rparr>"

text \<open>
  What \<^verbatim>\<open>path.exists()\<close> and the read find at a path, and what a write at a path does.
  A path that holds a NUL character is no file name: \<^verbatim>\<open>path.exists()\<close> is false and
  \<^verbatim>\<open>open\<close> raises \<^verbatim>\<open>ValueError\<close>.  \<^verbatim>\<open>json.dump\<close> starts once the file is open, and raises
  \<^verbatim>\<open>ValueError\<close> at a quantity that \<^verbatim>\<open>str\<close> does not render.
\<close>

definition found :: "world \<Rightarrow> string \<Rightarrow> fnode" where
  "found w p = (if CHR 0x00 \<in> set p then Absent else files w p)"

definition write_outcome :: "world \<Rightarrow> string \<Rightarrow> wres" where
  "write_outcome w p =
     (if CHR 0x00 \<in> set p then OpenRejects
      else case write_result w p of
             OpenRejects \<Rightarrow> OpenRejects
           | OpenFails \<Rightarrow> OpenFails
           | r \<Rightarrow> if list_all (\<lambda>(k, v). printable v) (stock_data w) then r
                  else DumpRejects)"

text \<open>\<^verbatim>\<open>Path(file)\<close> raises \<^verbatim>\<open>TypeError\<close> unless \<^verbatim>\<open>file\<close> is a string.\<close>

fun path_of :: "pyval \<Rightarrow> exn + string" where
  "path_of (PStr p) = Inr p"
| "path_of _ = Inl TypeError"

section \<open>The operations\<close>

text \<open>
  Each operation takes the state and returns the new state with the outcome of the
  call: \<open>Inr\<close> the returned value, or \<open>Inl\<close> the exception that leaves the call.
\<close>

definition get_default :: "store \<Rightarrow> string \<Rightarrow> num" where
  "get_default s k = (case dict_get s k of None \<Rightarrow> NInt 0 | Some v \<Rightarrow> v)"

text \<open>
  \<^verbatim>\<open>add_item\<close> also returns the caller's \<^verbatim>\<open>logs\<close> object as the call leaves it.  The
  sum is computed before the assignment, so an \<^verbatim>\<open>OverflowError\<close> of the addition
  leaves the mapping as it was.  After the assignment come the \<^verbatim>\<open>AttributeError\<close> of
  looking up \<^verbatim>\<open>logs.append\<close> and then the \<^verbatim>\<open>ValueError\<close> of the f-string, when \<^verbatim>\<open>qty\<close>
  is an int that \<^verbatim>\<open>str\<close> does not render.
\<close>

definition add_item :: "world \<Rightarrow> pyval \<Rightarrow> pyval \<Rightarrow> logs_arg \<Rightarrow> world \<times> logs_arg \<times> (exn + unit)" where
  "add_item w item qty logs =
     (case (item, as_num qty) of
        (PStr name, Some q) \<Rightarrow>
          (case py_add (get_default (stock_data w) name) q of
             Inl e \<Rightarrow> (w, logs, Inl e)
           | Inr v \<Rightarrow>
               (let w' = w\<lparr>stock_data := dict_set name v (stock_data w)\<rparr>
                in case logs of
                     LOther x \<Rightarrow> (w', logs, Inl AttributeError)
                   | LNone \<Rightarrow>
                       if formats qty
                       then (log_msg INFO
                               ''%s: Added %s of %s to inventory list successfully'' w',
                             LNone, Inr ())
                       else (w', logs, Inl ValueError)
                   | LList ls \<Rightarrow>
                       if formats qty
                       then (log_msg INFO
                               ''%s: Added %s of %s to inventory list successfully'' w',
                             LList (ls @ [Added qty name]), Inr ())
                       else (w', logs, Inl ValueError)))
      | _ \<Rightarrow>
          (log_msg WARNING ''Invalid item or quantity type provided: item=%r qty=%r'' w,
           logs, Inr ()))"

text \<open>
  In \<^verbatim>\<open>remove_item\<close> the handler of the subtraction catches \<^verbatim>\<open>KeyError\<close> only, which
  the guarded statements cannot raise: an \<^verbatim>\<open>OverflowError\<close> of \<^verbatim>\<open>float - int\<close> leaves
  the call, before the assignment.
\<close>

definition remove_item :: "world \<Rightarrow> pyval \<Rightarrow> pyval \<Rightarrow> world \<times> (exn + unit)" where
  "remove_item w item qty =
     (case item of
        PStr name \<Rightarrow>
          (case py_int qty of
             Inl e \<Rightarrow>
               if caught e
               then (log_msg WARNING ''remove_item: qty must be an integer; got %r'' w, Inr ())
               else (w, Inl e)
           | Inr qty_int \<Rightarrow>
               (case dict_get (stock_data w) name of
                  Some v \<Rightarrow>
                    (case py_sub v qty_int of
                       Inl e \<Rightarrow> (w, Inl e)
                     | Inr v' \<Rightarrow>
                         if num_le v' 0
                         then (log_msg INFO ''remove_item: %s removed from inventory.''
                                 (w\<lparr>stock_data := dict_del name (stock_data w)\<rparr>), Inr ())
                         else (w\<lparr>stock_data := dict_set name v' (stock_data w)\<rparr>, Inr ()))
                | None \<Rightarrow>
                    (log_msg WARNING ''Attempted to remove non-existent item: %s'' w, Inr ())))
      | _ \<Rightarrow> (log_msg WARNING ''remove_item: item must be a string; got %r'' w, Inr ()))"

definition get_qty :: "world \<Rightarrow> pyval \<Rightarrow> world \<times> (exn + int)" where
  "get_qty w item =
     (case item of
        PStr name \<Rightarrow> (w, num_int (get_default (stock_data w) name))
      | _ \<Rightarrow> (log_msg WARNING ''get_qty: item must be a string; got %r'' w, Inr 0))"

text \<open>
  The loop of \<^verbatim>\<open>load_data\<close> over \<^verbatim>\<open>data.items()\<close>.  The keys of a JSON object are
  strings, so \<^verbatim>\<open>str(k)\<close> is \<^verbatim>\<open>k\<close>.  An exception of \<^verbatim>\<open>int(v)\<close> that the handler does
  not catch ends the loop and leaves the call.
\<close>

fun load_items :: "world \<Rightarrow> (string \<times> pyval) list \<Rightarrow> world \<times> (exn + unit)" where
  "load_items w [] = (w, Inr ())"
| "load_items w ((k, v) # rest) =
     (case py_int v of
        Inr n \<Rightarrow> load_items (w\<lparr>stock_data := dict_set k (NInt n) (stock_data w)\<rparr>) rest
      | Inl e \<Rightarrow>
          if caught e
          then load_items (log_msg WARNING ''load_data: invalid quantity for %r -> %r, skipping'' w) rest
          else (w, Inl e))"

text \<open>
  \<^verbatim>\<open>path.exists()\<close> is called outside the \<^verbatim>\<open>try\<close>, and the handler of the \<^verbatim>\<open>try\<close> catches
  \<^verbatim>\<open>OSError\<close> and \<^verbatim>\<open>JSONDecodeError\<close> only: the other exceptions leave the call before the
  mapping is cleared.
\<close>

definition load_data :: "world \<Rightarrow> pyval \<Rightarrow> world \<times> (exn + unit)" where
  "load_data w file =
     (case path_of file of
        Inl e \<Rightarrow> (w, Inl e)
      | Inr p \<Rightarrow>
          (case found w p of
             Unsearchable \<Rightarrow> (w, Inl OSError)
           | Undecodable \<Rightarrow> (w, Inl UnicodeDecodeError)
           | TooDeep \<Rightarrow> (w, Inl RecursionError)
           | Oversized \<Rightarrow> (w, Inl ValueError)
           | Absent \<Rightarrow>
               ((log_msg INFO ''load_data: file %r not found. Starting with empty inventory.'' w)
                  \<lparr>stock_data := []\<rparr>, Inr ())
           | Unreadable \<Rightarrow>
               ((log_msg ERROR ''load_data: failed to load %r: %s'' w)\<lparr>stock_data := []\<rparr>,
                Inr ())
           | Corrupt \<Rightarrow>
               ((log_msg ERROR ''load_data: failed to load %r: %s'' w)\<lparr>stock_data := []\<rparr>,
                Inr ())
           | Parsed data \<Rightarrow>
               (case data of
                  PDict items \<Rightarrow> load_items (w\<lparr>stock_data := []\<rparr>) items
                | _ \<Rightarrow>
                    (log_msg WARNING
                       ''load_data: data in %r is not a dict; starting with empty inventory.''
                       (w\<lparr>stock_data := []\<rparr>), Inr ()))))"

text \<open>What \<^verbatim>\<open>json.dump(stock_data, ...)\<close> writes, as the value \<^verbatim>\<open>json.load\<close> reads back.\<close>

definition json_of :: "store \<Rightarrow> pyval" where
  "json_of s = PDict (map (\<lambda>(k, v). (k, pyval_of_num v)) s)"

text \<open>
  \<^verbatim>\<open>save_data\<close> catches \<^verbatim>\<open>OSError\<close> only.  The record ``saved'' is logged inside the
  \<^verbatim>\<open>with\<close> block, so a failure on closing the file comes after it.
\<close>

definition save_data :: "world \<Rightarrow> pyval \<Rightarrow> world \<times> (exn + unit)" where
  "save_data w file =
     (case path_of file of
        Inl e \<Rightarrow> (w, Inl e)
      | Inr p \<Rightarrow>
          (case write_outcome w p of
             WriteOk \<Rightarrow>
               (log_msg INFO ''save_data: inventory data saved to %r''
                  (w\<lparr>files := (files w)(p := Parsed (json_of (stock_data w)))\<rparr>), Inr ())
           | OpenRejects \<Rightarrow> (w, Inl ValueError)
           | DumpRejects \<Rightarrow> (w\<lparr>files := (files w)(p := Corrupt)\<rparr>, Inl ValueError)
           | OpenFails \<Rightarrow>
               (log_msg ERROR ''save_data: failed to save inventory data to %r: %s'' w, Inr ())
           | WriteFails \<Rightarrow>
               (log_msg ERROR ''save_data: failed to save inventory data to %r: %s''
                  (w\<lparr>files := (files w)(p := Corrupt)\<rparr>), Inr ())
           | FlushFails \<Rightarrow>
               (log_msg ERROR ''save_data: failed to save inventory data to %r: %s''
                  (log_msg INFO ''save_data: inventory data saved to %r''
                     (w\<lparr>files := (files w)(p := Corrupt)\<rparr>)), Inr ())))"

text \<open>
  The loop of \<^verbatim>\<open>print_data\<close>: the f-string of a line raises \<^verbatim>\<open>ValueError\<close> at a
  quantity that \<^verbatim>\<open>str\<close> does not render, after the lines before it were printed.
\<close>

fun print_items :: "world \<Rightarrow> store \<Rightarrow> world \<times> (exn + unit)" where
  "print_items w [] = (w, Inr ())"
| "print_items w ((item, quantity) # rest) =
     (if printable quantity
      then print_items (w\<lparr>stdout := stdout w @ [ItemLine item quantity]\<rparr>) rest
      else (w, Inl ValueError))"

definition print_data :: "world \<Rightarrow> world \<times> (exn + unit)" where
  "print_data w =
     (case print_items (w\<lparr>stdout := stdout w @ [Header]\<rparr>) (stock_data w) of
        (w', Inr u) \<Rightarrow> (log_msg INFO ''print_data: inventory report printed.'' w', Inr ())
      | (w', Inl e) \<Rightarrow> (w', Inl e))"

text \<open>The comprehension \<^verbatim>\<open>[item for item, qty in stock_data.items() if qty < thr]\<close>.\<close>

definition low_items :: "store \<Rightarrow> int \<Rightarrow> string list" where
  "low_items s thr = [item. (item, qty) \<leftarrow> s, num_lt qty thr]"

definition check_low_items :: "world \<Rightarrow> pyval \<Rightarrow> world \<times> (exn + string list)" where
  "check_low_items w threshold =
     (case py_int threshold of
        Inr thr \<Rightarrow>
          (log_msg INFO ''check_low_items: items below %d checked'' w,
           Inr (low_items (stock_data w) thr))
      | Inl e \<Rightarrow>
          if caught e
          then (log_msg INFO ''check_low_items: items below %d checked''
                  (log_msg WARNING ''check_low_items: threshold must be an integer; got %r'' w),
                Inr (low_items (stock_data w) 5))
          else (w, Inl e))"

text \<open>The state at process start: an empty mapping, nothing logged or printed.\<close>

definition init :: "(string \<Rightarrow> fnode) \<Rightarrow> (string \<Rightarrow> wres) \<Rightarrow> world" where
  "init fs wr = \<lparr>stock_data = [], files = fs, write_result = wr, logger = [], stdout = []\<rparr>"

section \<open>Notions used by the properties\<close>

definition is_str :: "pyval \<Rightarrow> bool" where
  "is_str v = (case v of PStr _ \<Rightarrow> True | _ \<Rightarrow> False)"

definition is_numeric :: "pyval \<Rightarrow> bool" where
  "is_numeric v = (case as_num v of Some _ \<Rightarrow> True | None \<Rightarrow> False)"

text \<open>The mapping as seen by a caller: the quantity stored for a key, if any.\<close>

definition quantity :: "world \<Rightarrow> string \<Rightarrow> num option" where
  "quantity w k = dict_get (stock_data w) k"

text \<open>The state at process start on a machine without files, where writes succeed.\<close>

definition fresh :: world where
  "fresh = init (\<lambda>_. Absent) (\<lambda>_. WriteOk)"

text \<open>States reached from the start by one call of \<^verbatim>\<open>add_item\<close>.\<close>

definition half_world :: world where
  "half_world = fst (add_item fresh (PStr ''x'') (PFloat (Fin (1 / 2))) LNone)"

definition inf_world :: world where
  "inf_world = fst (add_item fresh (PStr ''x'') (PFloat PosInf) LNone)"

definition nan_world :: world where
  "nan_world = fst (add_item fresh (PStr ''x'') (PFloat NaN) LNone)"

definition two_world :: world where
  "two_world = fst (add_item fresh (PStr ''a'') (PInt 2) LNone)"

text \<open>The mapping \<^verbatim>\<open>{"a": 2, "b": 10}\<close> and the mapping \<^verbatim>\<open>{"a": 2, "b": 2.5}\<close>.\<close>

definition ab_world :: world where
  "ab_world = fst (add_item two_world (PStr ''b'') (PInt 10) LNone)"

definition mixed_world :: world where
  "mixed_world = fst (add_item two_world (PStr ''b'') (PFloat (Fin (5 / 2))) LNone)"

text \<open>
  A machine whose \<^verbatim>\<open>inventory.json\<close> holds \<^verbatim>\<open>{"a": 1e999, "b": 2}\<close>: the number
  \<^verbatim>\<open>1e999\<close> is beyond binary64, and \<^verbatim>\<open>json.load\<close> returns it as the float infinity.
\<close>

definition inf_file :: "string \<Rightarrow> fnode" where
  "inf_file p =
     (if p = ''inventory.json''
      then Parsed (PDict [(''a'', PFloat PosInf), (''b'', PInt 2)])
      else Absent)"

text \<open>An integer beyond the range of binary64.\<close>

definition huge :: int where
  "huge = 2 ^ 1024"

subsection \<open>Sequences of mutating calls\<close>

datatype call = AddItem pyval pyval logs_arg | RemoveItem pyval pyval | LoadData pyval

fun step :: "world \<Rightarrow> call \<Rightarrow> world \<times> (exn + unit)" where
  "step w (AddItem item qty logs) = (case add_item w item qty logs of (w', _, r) \<Rightarrow> (w', r))"
| "step w (RemoveItem item qty) = remove_item w item qty"
| "step w (LoadData file) = load_data w file"

text \<open>The module has no handler around its calls: an exception ends the sequence.\<close>

fun run :: "world \<Rightarrow> call list \<Rightarrow> world" where
  "run w [] = w"
| "run w (c # cs) = (case step w c of (w', Inr _) \<Rightarrow> run w' cs | (w', Inl e) \<Rightarrow> w')"

text \<open>A quantity strictly greater than 0, and a mapping all of whose quantities are.\<close>

fun positive :: "num \<Rightarrow> bool" where
  "positive (NInt n) = (0 < n)"
| "positive (NFloat (Fin r)) = (0 < r)"
| "positive (NFloat PosInf) = True"
| "positive (NFloat NegInf) = False"
| "positive (NFloat NaN) = False"

definition all_positive :: "store \<Rightarrow> bool" where
  "all_positive s = list_all (\<lambda>(k, v). positive v) s"

text \<open>
  A float that is a binary64 number: rounding leaves it as it is.  Every float a
  caller can pass is one.
\<close>

fun binary64 :: "pyfloat \<Rightarrow> bool" where
  "binary64 (Fin r) = (round64 r = Fin r)"
| "binary64 PosInf = True"
| "binary64 NegInf = True"
| "binary64 NaN = True"

text \<open>
  The least positive binary64 number is \<open>2^-1074\<close>: a positive quantity the module can
  hold is a positive integer, a finite float from \<open>2^-1074\<close> on, or the float infinity.
\<close>

fun grounded :: "num \<Rightarrow> bool" where
  "grounded (NInt n) = (0 < n)"
| "grounded (NFloat (Fin r)) = (pow2 (- 1074) \<le> r)"
| "grounded (NFloat PosInf) = True"
| "grounded (NFloat NegInf) = False"
| "grounded (NFloat NaN) = False"

definition grounded_store :: "store \<Rightarrow> bool" where
  "grounded_store s = list_all (\<lambda>(k, v). grounded v) s"

text \<open>
  Calls that add or load positive quantities only: the \<^verbatim>\<open>qty\<close> of an \<^verbatim>\<open>add_item\<close> that
  passes the type checks is an integer or a float \<open>> 0\<close>, and every value of a loaded
  JSON object that \<^verbatim>\<open>int\<close> coerces is coerced to an integer \<open>> 0\<close>.
\<close>

definition adds_positive :: "pyval \<Rightarrow> bool" where
  "adds_positive qty =
     (case as_num qty of
        None \<Rightarrow> True
      | Some (NInt n) \<Rightarrow> 0 < n
      | Some (NFloat f) \<Rightarrow> binary64 f \<and> positive (NFloat f))"

definition loads_positive :: "pyval \<Rightarrow> bool" where
  "loads_positive v = (case py_int v of Inr n \<Rightarrow> 0 < n | Inl e \<Rightarrow> True)"

definition file_positive :: "fnode \<Rightarrow> bool" where
  "file_positive f =
     (case f of Parsed (PDict items) \<Rightarrow> list_all (\<lambda>(k, v). loads_positive v) items
      | _ \<Rightarrow> True)"

fun admissible :: "(string \<Rightarrow> fnode) \<Rightarrow> call \<Rightarrow> bool" where
  "admissible fs (AddItem item qty logs) = (is_str item \<and> adds_positive qty \<or> \<not> is_str item)"
| "admissible fs (RemoveItem item qty) = True"
| "admissible fs (LoadData file) =
     (case path_of file of Inr p \<Rightarrow> file_positive (fs p) | Inl e \<Rightarrow> True)"

text \<open>
  The calls of the module's \<^verbatim>\<open>main\<close> that change the mapping, on a machine whose
  \<^verbatim>\<open>inventory.json\<close> holds \<^verbatim>\<open>{"apple": 7, "banana": "3", "cherry": null}\<close>, followed by
  additions of floats and a removal.
\<close>

definition main_files :: "string \<Rightarrow> fnode" where
  "main_files p =
     (if p = ''inventory.json''
      then Parsed (PDict [(''apple'', PInt 7), (''banana'', PStr ''3''), (''cherry'', PNone)])
      else Absent)"

definition main_calls :: "call list" where
  "main_calls =
     [AddItem (PStr ''apple'') (PInt 10) LNone,
      AddItem (PStr ''banana'') (PInt 3) LNone,
      AddItem (PInt 123) (PStr ''ten'') LNone,
      RemoveItem (PStr ''apple'') (PInt 3),
      RemoveItem (PStr ''orange'') (PInt 1),
      LoadData (PStr ''inventory.json''),
      AddItem (PStr ''pear'') (PFloat (Fin (1 / 2))) LNone,
      AddItem (PStr ''pear'') (PFloat (Fin (1 / 4))) LNone,
      AddItem (PStr ''apple'') (PFloat (Fin (1 / 2))) LNone,
      RemoveItem (PStr ''banana'') (PInt 1),
      RemoveItem (PStr ''apple'') (PInt 7)]"

subsection \<open>Saving and loading\<close>

text \<open>Quantities that \<^verbatim>\<open>int\<close> coerces, and the coercion.\<close>

fun finite_num :: "num \<Rightarrow> bool" where
  "finite_num (NInt n) = True"
| "finite_num (NFloat (Fin r)) = True"
| "finite_num (NFloat PosInf) = False"
| "finite_num (NFloat NegInf) = False"
| "finite_num (NFloat NaN) = False"

definition finite_store :: "store \<Rightarrow> bool" where
  "finite_store s = list_all (\<lambda>(k, v). finite_num v) s"

fun coerced :: "num \<Rightarrow> num" where
  "coerced (NInt n) = NInt n"
| "coerced (NFloat f) = (case float_to_int f of Inr n \<Rightarrow> NInt n | Inl e \<Rightarrow> NFloat f)"

subsection \<open>Calls that return\<close>


text \<open>The call appended records to the log, one of them of level \<open>l\<close>.\<close>

definition logged :: "level \<Rightarrow> world \<Rightarrow> world \<Rightarrow> bool" where
  "logged l w w' =
     (take (length (logger w)) (logger w') = logger w
      \<and> l \<in> set (map fst (drop (length (logger w)) (logger w'))))"
















section \<open>Frame properties\<close>

lemma stock_data_log_msg: "stock_data (log_msg l m w) = stock_data w"
  by (simp add: log_msg_def)

lemma found_Parsed: "found w p = Parsed data \<Longrightarrow> files w p = Parsed data"
  by (simp add: found_def split: if_splits)

lemma stock_data_print_items: "stock_data (fst (print_items w s)) = stock_data w"
  by (induction s arbitrary: w) auto

lemma stock_data_print_data: "stock_data (fst (print_data w)) = stock_data w"
proof -
  obtain w' r where r: "print_items (w\<lparr>stdout := stdout w @ [Header]\<rparr>) (stock_data w) = (w', r)"
    by (cases "print_items (w\<lparr>stdout := stdout w @ [Header]\<rparr>) (stock_data w)")
  with stock_data_print_items [of "w\<lparr>stdout := stdout w @ [Header]\<rparr>" "stock_data w"]
  have "stock_data w' = stock_data w" by simp
  with r show ?thesis
    by (cases r) (simp_all add: print_data_def stock_data_log_msg)
qed

text \<open>
  C10.  \<^verbatim>\<open>get_qty\<close>, \<^verbatim>\<open>check_low_items\<close>, \<^verbatim>\<open>print_data\<close> and \<^verbatim>\<open>save_data\<close> never modify
  the inventory mapping: whatever the arguments, whatever the outcome of the write and
  whether or not the call raises, the mapping after the call is the mapping before it.
\<close>

theorem queries_keep_mapping:
  "stock_data (fst (get_qty w item)) = stock_data w
   \<and> stock_data (fst (check_low_items w threshold)) = stock_data w
   \<and> stock_data (fst (print_data w)) = stock_data w
   \<and> stock_data (fst (save_data w file)) = stock_data w"
proof -
  have g: "stock_data (fst (get_qty w item)) = stock_data w"
    by (simp add: get_qty_def stock_data_log_msg split: pyval.split)
  have c: "stock_data (fst (check_low_items w threshold)) = stock_data w"
    by (simp add: check_low_items_def stock_data_log_msg split: sum.split)
  have p: "stock_data (fst (print_data w)) = stock_data w"
    by (rule stock_data_print_data)
  have s: "stock_data (fst (save_data w file)) = stock_data w"
    by (simp add: save_data_def stock_data_log_msg split: sum.split wres.split)
  from g c p s show ?thesis by simp
qed

section \<open>Rejected arguments of \<open>add_item\<close>\<close>

text \<open>
  C9.  A call \<^verbatim>\<open>add_item(item, qty)\<close> in which \<^verbatim>\<open>item\<close> is not a string or \<^verbatim>\<open>qty\<close> is
  not numeric leaves the mapping exactly as it was and raises nothing, whatever the
  \<^verbatim>\<open>logs\<close> argument is.
\<close>

theorem add_item_invalid_noop:
  assumes "\<not> is_str item \<or> \<not> is_numeric qty"
  shows "stock_data (fst (add_item w item qty logs)) = stock_data w
         \<and> snd (snd (add_item w item qty logs)) = Inr ()"
proof (cases "is_str item")
  case False
  then show ?thesis
    by (cases item) (simp_all add: add_item_def is_str_def stock_data_log_msg)
next
  case True
  with assms have "as_num qty = None"
    by (simp add: is_numeric_def split: option.splits)
  with True show ?thesis
    by (cases item) (simp_all add: add_item_def is_str_def stock_data_log_msg)
qed

theorem add_item_invalid_noop_witness:
  "\<not> is_str (PInt 123) \<and> \<not> is_numeric (PStr ''ten'')
   \<and> stock_data (fst (add_item fresh (PInt 123) (PStr ''ten'') LNone)) = stock_data fresh
   \<and> snd (snd (add_item fresh (PInt 123) (PStr ''ten'') LNone)) = Inr ()"
proof -
  have h: "\<not> is_str (PInt 123) \<or> \<not> is_numeric (PStr ''ten'')"
    by (simp add: is_str_def)
  from add_item_invalid_noop [OF h, of fresh LNone] show ?thesis
    by (simp add: is_str_def is_numeric_def)
qed

section \<open>Dictionaries as mappings\<close>

lemma dict_get_set: "dict_get (dict_set k v s) k' = (if k' = k then Some v else dict_get s k')"
  by (induction s) auto

lemma dict_get_None_iff: "dict_get s k = None \<longleftrightarrow> k \<notin> fst ` set s"
  by (induction s) (auto split: if_splits)

lemma keys_dict_set: "fst ` set (dict_set k v s) = insert k (fst ` set s)"
proof (induction s)
  case Nil
  show ?case by simp
next
  case (Cons p s)
  obtain a b where p: "p = (a, b)" by (cases p)
  show ?case
  proof (cases "a = k")
    case True
    with p show ?thesis by simp
  next
    case False
    with p Cons show ?thesis by (simp add: insert_commute)
  qed
qed

lemma distinct_dict_set: "distinct (map fst s) \<Longrightarrow> distinct (map fst (dict_set k v s))"
  by (induction s) (auto simp: keys_dict_set)

lemma keys_dict_del: "fst ` set (dict_del k s) \<subseteq> fst ` set s"
proof (induction s)
  case Nil
  show ?case by simp
next
  case (Cons p s)
  obtain a b where p: "p = (a, b)" by (cases p)
  from Cons p show ?case by (cases "a = k") auto
qed

lemma dict_get_del:
  "distinct (map fst s) \<Longrightarrow>
     dict_get (dict_del k s) k' = (if k' = k then None else dict_get s k')"
proof (induction s)
  case Nil
  show ?case by simp
next
  case (Cons p s)
  obtain a b where p: "p = (a, b)" by (cases p)
  show ?case
  proof (cases "a = k")
    case True
    with Cons.prems p have "dict_get s k = None"
      by (simp add: dict_get_None_iff)
    with True p show ?thesis by simp
  next
    case False
    with Cons p show ?thesis by (cases "k' = k") simp_all
  qed
qed

lemma distinct_dict_del: "distinct (map fst s) \<Longrightarrow> distinct (map fst (dict_del k s))"
proof (induction s)
  case Nil
  then show ?case by simp
next
  case (Cons p s)
  obtain a b where p: "p = (a, b)" by (cases p)
  from Cons p keys_dict_del [of k s] show ?case by (cases "a = k") auto
qed

section \<open>Queries\<close>

text \<open>
  C7, as the code has it.  \<^verbatim>\<open>get_qty(item)\<close> returns \<^verbatim>\<open>int(q)\<close> for the stored quantity
  \<open>q\<close> of a string \<^verbatim>\<open>item\<close>: \<open>q\<close> itself when it is an integer, \<open>q\<close> truncated toward
  zero when it is a finite float.  It returns 0 when \<^verbatim>\<open>item\<close> is absent and when it is
  not a string.  In all these cases it raises nothing.
\<close>

theorem get_qty_result:
  "(quantity w k1 = Some (NInt n) \<longrightarrow> snd (get_qty w (PStr k1)) = Inr n)
   \<and> (quantity w k2 = Some (NFloat (Fin r)) \<longrightarrow> snd (get_qty w (PStr k2)) = Inr (trunc_rat r))
   \<and> (quantity w k3 = None \<longrightarrow> snd (get_qty w (PStr k3)) = Inr 0)
   \<and> (\<not> is_str item \<longrightarrow> snd (get_qty w item) = Inr 0)"
proof -
  have a: "quantity w k1 = Some (NInt n) \<longrightarrow> snd (get_qty w (PStr k1)) = Inr n"
    by (simp add: get_qty_def quantity_def get_default_def)
  have b: "quantity w k2 = Some (NFloat (Fin r))
             \<longrightarrow> snd (get_qty w (PStr k2)) = Inr (trunc_rat r)"
    by (simp add: get_qty_def quantity_def get_default_def)
  have c: "quantity w k3 = None \<longrightarrow> snd (get_qty w (PStr k3)) = Inr 0"
    by (simp add: get_qty_def quantity_def get_default_def)
  have d: "\<not> is_str item \<longrightarrow> snd (get_qty w item) = Inr 0"
    by (cases item) (simp_all add: get_qty_def is_str_def)
  from a b c d show ?thesis by blast
qed

theorem get_qty_result_witness:
  "quantity mixed_world ''a'' = Some (NInt 2)
   \<and> snd (get_qty mixed_world (PStr ''a'')) = Inr 2
   \<and> quantity mixed_world ''b'' = Some (NFloat (Fin (5 / 2)))
   \<and> snd (get_qty mixed_world (PStr ''b'')) = Inr 2
   \<and> quantity mixed_world ''c'' = None
   \<and> snd (get_qty mixed_world (PStr ''c'')) = Inr 0
   \<and> \<not> is_str PNone
   \<and> snd (get_qty mixed_world PNone) = Inr 0"
proof -
  have s: "stock_data mixed_world = [(''a'', NInt 2), (''b'', NFloat (Fin (5 / 2)))]"
    by code_simp
  have a: "quantity mixed_world ''a'' = Some (NInt 2)"
    and b: "quantity mixed_world ''b'' = Some (NFloat (Fin (5 / 2)))"
    and c: "quantity mixed_world ''c'' = None"
    by (simp_all add: quantity_def s)
  have d: "\<not> is_str PNone" by (simp add: is_str_def)
  have t: "trunc_rat (5 / 2) = 2" by code_simp
  from get_qty_result [of mixed_world "''a''" 2 "''b''" "5 / 2" "''c''" PNone] a b c d t
  show ?thesis by simp
qed

theorem get_qty_raises_counterexample:
  "quantity inf_world ''x'' = Some (NFloat PosInf)
   \<and> snd (get_qty inf_world (PStr ''x'')) = Inl OverflowError"
proof -
  have s: "stock_data inf_world = [(''x'', NFloat PosInf)]"
    by code_simp
  show ?thesis
    by (simp add: quantity_def get_qty_def get_default_def s)
qed

lemma low_items_filter:
  "low_items s thr = map fst (filter (\<lambda>(item, qty). num_lt qty thr) s)"
  by (induction s) (auto simp: low_items_def)

text \<open>
  C8, as the code has it.  \<^verbatim>\<open>check_low_items(threshold)\<close> compares with
  \<^verbatim>\<open>int(threshold)\<close>: it returns exactly the item names whose stored quantity is
  strictly less than the threshold coerced to an integer, in the mapping's iteration
  order.  When the coercion raises \<^verbatim>\<open>TypeError\<close> or \<^verbatim>\<open>ValueError\<close>, 5 is used instead
  and a warning is logged.
\<close>

theorem check_low_items_result:
  "(py_int threshold = Inr thr \<longrightarrow>
      snd (check_low_items w threshold)
        = Inr (map fst (filter (\<lambda>(item, qty). num_lt qty thr) (stock_data w))))
   \<and> (py_int threshold' = Inl e \<and> caught e \<longrightarrow>
      snd (check_low_items w threshold')
        = Inr (map fst (filter (\<lambda>(item, qty). num_lt qty 5) (stock_data w)))
      \<and> logger (fst (check_low_items w threshold'))
        = logger w @ [(WARNING, ''check_low_items: threshold must be an integer; got %r''),
                      (INFO, ''check_low_items: items below %d checked'')])"
proof -
  have a: "py_int threshold = Inr thr \<longrightarrow>
      snd (check_low_items w threshold)
        = Inr (map fst (filter (\<lambda>(item, qty). num_lt qty thr) (stock_data w)))"
    by (simp add: check_low_items_def low_items_filter)
  have b: "py_int threshold' = Inl e \<and> caught e \<longrightarrow>
      snd (check_low_items w threshold')
        = Inr (map fst (filter (\<lambda>(item, qty). num_lt qty 5) (stock_data w)))"
    by (simp add: check_low_items_def low_items_filter stock_data_log_msg)
  have c: "py_int threshold' = Inl e \<and> caught e \<longrightarrow>
      logger (fst (check_low_items w threshold'))
        = logger w @ [(WARNING, ''check_low_items: threshold must be an integer; got %r''),
                      (INFO, ''check_low_items: items below %d checked'')]"
    by (simp add: check_low_items_def log_msg_def)
  from a b c show ?thesis by blast
qed

lemma stock_data_ab_world: "stock_data ab_world = [(''a'', NInt 2), (''b'', NInt 10)]"
  by code_simp

theorem check_low_items_result_witness:
  "py_int (PInt 5) = Inr 5
   \<and> snd (check_low_items ab_world (PInt 5)) = Inr [''a'']
   \<and> py_int (PStr ''low'') = Inl ValueError
   \<and> caught ValueError
   \<and> snd (check_low_items ab_world (PStr ''low'')) = Inr [''a'']
   \<and> logger (fst (check_low_items ab_world (PStr ''low'')))
       = logger ab_world @ [(WARNING, ''check_low_items: threshold must be an integer; got %r''),
                            (INFO, ''check_low_items: items below %d checked'')]"
proof -
  have a: "py_int (PInt 5) = Inr 5" by simp
  have b: "py_int (PStr ''low'') = Inl ValueError" by code_simp
  from check_low_items_result [of "PInt 5" 5 ab_world "PStr ''low''" ValueError] a b
  show ?thesis by (simp add: stock_data_ab_world)
qed

theorem check_low_items_truncates_counterexample:
  "quantity two_world ''a'' = Some (NInt 2)
   \<and> (of_int 2 :: rat) < 5 / 2
   \<and> snd (check_low_items two_world (PFloat (Fin (5 / 2)))) = Inr []"
proof -
  have s: "stock_data two_world = [(''a'', NInt 2)]" by code_simp
  have t: "trunc_rat (5 / 2) = 2" by code_simp
  show ?thesis
    by (simp add: quantity_def check_low_items_def low_items_def s t)
qed

section \<open>Adding\<close>

text \<open>
  C4, as the code has it.  For a string \<^verbatim>\<open>item\<close> that is absent or stored with an
  integer quantity, and an integer \<^verbatim>\<open>qty\<close> (an \<^verbatim>\<open>int\<close> or a \<^verbatim>\<open>bool\<close>) of either sign,
  \<^verbatim>\<open>get_qty(item)\<close> after \<^verbatim>\<open>add_item(item, qty)\<close> is \<^verbatim>\<open>get_qty(item)\<close> before the call
  plus \<^verbatim>\<open>qty\<close>.
\<close>

theorem add_item_get_qty:
  assumes "as_num qty = Some (NInt n)"
    and "get_default (stock_data w) k = NInt m"
  shows "snd (get_qty w (PStr k)) = Inr m
         \<and> snd (get_qty (fst (add_item w (PStr k) qty logs)) (PStr k)) = Inr (m + n)"
proof -
  have before: "snd (get_qty w (PStr k)) = Inr m"
    using assms(2) by (simp add: get_qty_def)
  have "stock_data (fst (add_item w (PStr k) qty logs))
          = dict_set k (NInt (m + n)) (stock_data w)"
    using assms by (cases logs) (simp_all add: add_item_def Let_def stock_data_log_msg)
  then have "get_default (stock_data (fst (add_item w (PStr k) qty logs))) k = NInt (m + n)"
    by (simp add: get_default_def dict_get_set)
  then have after: "snd (get_qty (fst (add_item w (PStr k) qty logs)) (PStr k)) = Inr (m + n)"
    by (simp add: get_qty_def)
  from before after show ?thesis by simp
qed

theorem add_item_get_qty_witness:
  "as_num (PInt 3) = Some (NInt 3)
   \<and> get_default (stock_data two_world) ''a'' = NInt 2
   \<and> snd (get_qty two_world (PStr ''a'')) = Inr 2
   \<and> snd (get_qty (fst (add_item two_world (PStr ''a'') (PInt 3) LNone)) (PStr ''a'')) = Inr 5"
proof -
  have a: "as_num (PInt 3) = Some (NInt 3)" by simp
  have s: "stock_data two_world = [(''a'', NInt 2)]" by code_simp
  have b: "get_default (stock_data two_world) ''a'' = NInt 2"
    by (simp add: s get_default_def)
  from add_item_get_qty [OF a b, of LNone] a b show ?thesis by simp
qed

theorem add_item_float_counterexample:
  "is_str (PStr ''x'') \<and> is_numeric (PFloat (Fin (1 / 2)))
   \<and> \<not> num_lt (NFloat (Fin (1 / 2))) 0
   \<and> snd (get_qty fresh (PStr ''x'')) = Inr 0
   \<and> snd (get_qty (fst (add_item fresh (PStr ''x'') (PFloat (Fin (1 / 2))) LNone)) (PStr ''x''))
       = Inr 0
   \<and> py_add (NInt 0) (NFloat (Fin (1 / 2))) = Inr (NFloat (Fin (1 / 2)))
   \<and> \<not> num_eq (NInt 0) (NFloat (Fin (1 / 2)))"
  by code_simp

section \<open>Removing\<close>

text \<open>
  C3, as the code has it.  Let \<^verbatim>\<open>item\<close> be a string and \<^verbatim>\<open>qty\<close> coerce to the integer
  \<open>q = int(qty)\<close>.  If \<^verbatim>\<open>item\<close> is absent, \<^verbatim>\<open>remove_item\<close> leaves the mapping unchanged
  and raises nothing.  If \<^verbatim>\<open>item\<close> is stored with an integer quantity \<open>n\<close>, the call
  raises nothing, the quantity becomes \<open>n - q\<close>, and the key is deleted when
  \<open>n - q \<le> 0\<close>; every other key keeps its quantity.  The same holds for a float
  quantity whenever the subtraction \<^verbatim>\<open>float - int\<close> returns.  So the call never leaves
  \<^verbatim>\<open>item\<close> in the mapping with a quantity \<open>\<le> 0\<close>.
\<close>

theorem remove_item_result:
  assumes "py_int qty = Inr q"
    and "distinct (map fst (stock_data w))"
  shows "(quantity w k1 = None \<longrightarrow>
            stock_data (fst (remove_item w (PStr k1) qty)) = stock_data w
            \<and> snd (remove_item w (PStr k1) qty) = Inr ())
         \<and> (quantity w k2 = Some (NInt n) \<longrightarrow>
            snd (remove_item w (PStr k2) qty) = Inr ()
            \<and> (\<forall>k. quantity (fst (remove_item w (PStr k2) qty)) k
                   = (if k = k2 then (if n - q \<le> 0 then None else Some (NInt (n - q)))
                      else quantity w k)))
         \<and> (quantity w k3 = Some (NFloat f) \<and> py_sub (NFloat f) q = Inr v \<longrightarrow>
            snd (remove_item w (PStr k3) qty) = Inr ()
            \<and> (\<forall>k. quantity (fst (remove_item w (PStr k3) qty)) k
                   = (if k = k3 then (if num_le v 0 then None else Some v)
                      else quantity w k)))"
proof -
  have gen: "snd (remove_item w (PStr k) qty) = Inr ()
             \<and> (\<forall>k'. quantity (fst (remove_item w (PStr k) qty)) k'
                    = (if k' = k then (if num_le v' 0 then None else Some v')
                       else quantity w k'))"
    if "quantity w k = Some u" and "py_sub u q = Inr v'" for k u v'
    using that assms
    by (simp add: remove_item_def quantity_def stock_data_log_msg dict_get_set dict_get_del)
  have a: "quantity w k1 = None \<longrightarrow>
            stock_data (fst (remove_item w (PStr k1) qty)) = stock_data w
            \<and> snd (remove_item w (PStr k1) qty) = Inr ()"
    using assms(1) by (simp add: remove_item_def quantity_def stock_data_log_msg)
  have b: "quantity w k2 = Some (NInt n) \<longrightarrow>
            snd (remove_item w (PStr k2) qty) = Inr ()
            \<and> (\<forall>k. quantity (fst (remove_item w (PStr k2) qty)) k
                   = (if k = k2 then (if n - q \<le> 0 then None else Some (NInt (n - q)))
                      else quantity w k))"
    using gen [of k2 "NInt n" "NInt (n - q)"] by simp
  have c: "quantity w k3 = Some (NFloat f) \<and> py_sub (NFloat f) q = Inr v \<longrightarrow>
            snd (remove_item w (PStr k3) qty) = Inr ()
            \<and> (\<forall>k. quantity (fst (remove_item w (PStr k3) qty)) k
                   = (if k = k3 then (if num_le v 0 then None else Some v)
                      else quantity w k))"
    using gen [of k3 "NFloat f" v] by blast
  from a b c show ?thesis by blast
qed

lemma stock_data_mixed_world:
  "stock_data mixed_world = [(''a'', NInt 2), (''b'', NFloat (Fin (5 / 2)))]"
  by code_simp

theorem remove_item_result_witness:
  "py_int (PStr ''2'') = Inr 2
   \<and> distinct (map fst (stock_data mixed_world))
   \<and> quantity mixed_world ''c'' = None
   \<and> stock_data (fst (remove_item mixed_world (PStr ''c'') (PStr ''2''))) = stock_data mixed_world
   \<and> snd (remove_item mixed_world (PStr ''c'') (PStr ''2'')) = Inr ()
   \<and> quantity mixed_world ''a'' = Some (NInt 2)
   \<and> snd (remove_item mixed_world (PStr ''a'') (PStr ''2'')) = Inr ()
   \<and> quantity (fst (remove_item mixed_world (PStr ''a'') (PStr ''2''))) ''a'' = None
   \<and> quantity (fst (remove_item mixed_world (PStr ''a'') (PStr ''2''))) ''b''
       = Some (NFloat (Fin (5 / 2)))
   \<and> quantity mixed_world ''b'' = Some (NFloat (Fin (5 / 2)))
   \<and> py_sub (NFloat (Fin (5 / 2))) 2 = Inr (NFloat (Fin (1 / 2)))
   \<and> snd (remove_item mixed_world (PStr ''b'') (PStr ''2'')) = Inr ()
   \<and> quantity (fst (remove_item mixed_world (PStr ''b'') (PStr ''2''))) ''b''
       = Some (NFloat (Fin (1 / 2)))"
proof -
  have q: "py_int (PStr ''2'') = Inr 2" by code_simp
  have d: "distinct (map fst (stock_data mixed_world))"
    by (simp add: stock_data_mixed_world)
  have c: "quantity mixed_world ''c'' = None"
    and a: "quantity mixed_world ''a'' = Some (NInt 2)"
    and b: "quantity mixed_world ''b'' = Some (NFloat (Fin (5 / 2)))"
    by (simp_all add: quantity_def stock_data_mixed_world)
  have s: "py_sub (NFloat (Fin (5 / 2))) 2 = Inr (NFloat (Fin (1 / 2)))" by code_simp
  from remove_item_result [OF q d, where ?k1.0 = "''c''" and ?k2.0 = "''a''" and n = 2
      and ?k3.0 = "''b''" and f = "Fin (5 / 2)" and v = "NFloat (Fin (1 / 2))"]
    q d c a b s
  show ?thesis by simp
qed

theorem remove_item_overflow_counterexample:
  "quantity half_world ''x'' = Some (NFloat (Fin (1 / 2)))
   \<and> py_int (PInt huge) = Inr huge
   \<and> snd (remove_item half_world (PStr ''x'') (PInt huge)) = Inl OverflowError
   \<and> quantity (fst (remove_item half_world (PStr ''x'') (PInt huge))) ''x''
       = Some (NFloat (Fin (1 / 2)))"
proof -
  have s: "stock_data half_world = [(''x'', NFloat (Fin (1 / 2)))]" by code_simp
  have o: "int_to_float huge = Inl OverflowError" by code_simp
  show ?thesis
    by (simp add: quantity_def remove_item_def s o)
qed

section \<open>Loading\<close>

text \<open>
  C6 at a file with a value beyond binary64.  \<^verbatim>\<open>int(v)\<close> of the infinite float raises
  \<^verbatim>\<open>OverflowError\<close>, which \<^verbatim>\<open>except (TypeError, ValueError)\<close> does not catch: the key
  is not skipped, the exception leaves \<^verbatim>\<open>load_data\<close>, and the key \<^verbatim>\<open>"b"\<close> after it is
  never loaded.
\<close>

theorem load_data_infinite_value_raises:
  "py_int (PFloat PosInf) = Inl OverflowError
   \<and> \<not> caught OverflowError
   \<and> py_int (PInt 2) = Inr 2
   \<and> snd (load_data (init inf_file (\<lambda>_. WriteOk)) (PStr ''inventory.json''))
       = Inl OverflowError
   \<and> stock_data (fst (load_data (init inf_file (\<lambda>_. WriteOk)) (PStr ''inventory.json'')))
       = []"
  by (simp add: load_data_def found_def init_def inf_file_def)

section \<open>Rounding to binary64\<close>

lemma pow2_powi: "pow2 e = 2 powi e"
  by (simp add: pow2_def power_int_def inverse_eq_divide power_one_over)

lemma pow2_pos: "0 < pow2 e"
  by (simp add: pow2_powi)

lemma pow2_mono: "a \<le> b \<Longrightarrow> pow2 a \<le> pow2 b"
  by (simp add: pow2_powi power_int_increasing)

lemma pow2_diff: "pow2 (a - b) = pow2 a / pow2 b"
  by (simp add: pow2_powi power_int_diff)

lemma floor_log2_le:
  assumes "0 < r"
  shows "pow2 (floor_log2 r) \<le> r"
proof -
  obtain p q where pq: "quotient_of r = (p, q)" by (cases "quotient_of r")
  then have q: "0 < q" and r: "r = of_int p / of_int q"
    by (simp_all add: quotient_of_denom_pos quotient_of_div)
  with assms have p: "0 < p" by (simp add: zero_less_divide_iff)
  let ?e = "bitlen p - bitlen q"
  show ?thesis
  proof (cases "pow2 ?e \<le> r")
    case True
    with pq show ?thesis by (simp add: floor_log2_def)
  next
    case False
    from bitlen_bounds [OF p] have lo: "2 ^ nat (bitlen p - 1) \<le> p" by simp
    from bitlen_bounds [OF q] have hi: "q < 2 ^ nat (bitlen q)" by simp
    from p have bp: "1 \<le> bitlen p" by (simp add: bitlen_alt_def)
    have "pow2 (?e - 1) = pow2 (bitlen p - 1) / pow2 (bitlen q)"
      using pow2_diff [of "bitlen p - 1" "bitlen q"] by (simp add: algebra_simps)
    also have "pow2 (bitlen p - 1) = of_int (2 ^ nat (bitlen p - 1))"
      using bp by (simp add: pow2_def)
    also have "pow2 (bitlen q) = of_int (2 ^ nat (bitlen q))"
      using bitlen_nonneg [of q] by (simp add: pow2_def)
    finally have e: "pow2 (?e - 1) = of_int (2 ^ nat (bitlen p - 1)) / of_int (2 ^ nat (bitlen q))" .
    have "of_int (2 ^ nat (bitlen p - 1)) / of_int (2 ^ nat (bitlen q))
            \<le> (of_int p :: rat) / of_int q"
    proof (rule frac_le)
      show "(0::rat) \<le> of_int p" using p by simp
      show "(of_int (2 ^ nat (bitlen p - 1)) :: rat) \<le> of_int p" using lo by (simp only: of_int_le_iff)
      show "(0::rat) < of_int q" using q by simp
      show "(of_int q :: rat) \<le> of_int (2 ^ nat (bitlen q))" using hi by simp
    qed
    with e r have "pow2 (?e - 1) \<le> r" by simp
    with False pq show ?thesis by (simp add: floor_log2_def)
  qed
qed

lemma round_half_even_pos: "1 / 2 < x \<Longrightarrow> 0 < round_half_even x"
proof -
  assume x: "1 / 2 < x"
  then have f: "0 \<le> \<lfloor>x\<rfloor>" by simp
  show ?thesis
  proof (cases "\<lfloor>x\<rfloor> = 0")
    case True
    with x have "1 / 2 < x - of_int \<lfloor>x\<rfloor>" by simp
    with True show ?thesis by (simp add: round_half_even_def Let_def)
  next
    case False
    with f have "0 < \<lfloor>x\<rfloor>" by linarith
    then show ?thesis by (simp add: round_half_even_def Let_def)
  qed
qed

lemma round_half_even_nonneg: "0 \<le> x \<Longrightarrow> 0 \<le> round_half_even x"
proof -
  assume "0 \<le> x"
  then have "0 \<le> \<lfloor>x\<rfloor>" by simp
  then show ?thesis by (simp add: round_half_even_def Let_def)
qed

text \<open>The quantum of \<open>r\<close>: the spacing of the binary64 numbers around it.\<close>

lemma quantum_ge: "pow2 (- 1074) \<le> pow2 (max e (- 1022) - 52)"
  by (rule pow2_mono) simp

lemma round64_cases:
  assumes "r \<noteq> 0"
  obtains (inf) "round64 r = (if 0 < r then PosInf else NegInf)"
  | (fin) n e where "round64 r = Fin (of_int n * pow2 (e - 52))"
      "e = max (floor_log2 \<bar>r\<bar>) (- 1022)" "n = round_half_even (r / pow2 (e - 52))"
proof -
  define e where "e = max (floor_log2 \<bar>r\<bar>) (- 1022)"
  define n where "n = round_half_even (r / pow2 (e - 52))"
  show ?thesis
  proof (cases "1024 \<le> e \<or> (e = 1023 \<and> 2 ^ 53 \<le> \<bar>n\<bar>)")
    case True
    with assms have "round64 r = (if 0 < r then PosInf else NegInf)"
      unfolding round64_def Let_def e_def n_def by (simp only: if_False if_True)
    then show ?thesis by (rule inf)
  next
    case False
    with assms have "round64 r = Fin (of_int n * pow2 (e - 52))"
      unfolding round64_def Let_def e_def n_def by (simp only: if_False)
    then show ?thesis using e_def n_def by (rule fin)
  qed
qed

lemma round64_margin:
  assumes "round64 r = Fin m" and "0 < m"
  shows "pow2 (- 1074) \<le> m"
proof -
  from assms have r: "r \<noteq> 0" by (auto simp: round64_def)
  then show ?thesis
  proof (cases rule: round64_cases)
    case inf
    with assms show ?thesis by (simp split: if_splits)
  next
    case (fin n e)
    with assms have m: "m = of_int n * pow2 (e - 52)" by simp
    with assms(2) pow2_pos [of "e - 52"] have "0 < n"
      by (simp add: zero_less_mult_iff)
    then have "(1::rat) \<le> of_int n" by simp
    then have "1 * pow2 (e - 52) \<le> of_int n * pow2 (e - 52)"
      using pow2_pos [of "e - 52"] by (intro mult_right_mono) simp_all
    with m quantum_ge [of "floor_log2 \<bar>r\<bar>"] fin(2) show ?thesis by simp
  qed
qed

lemma round64_nonneg:
  assumes "0 \<le> r" and "round64 r = Fin m"
  shows "0 \<le> m"
proof (cases "r = 0")
  case True
  with assms show ?thesis by (simp add: round64_def)
next
  case False
  then show ?thesis
  proof (cases rule: round64_cases)
    case inf
    with assms show ?thesis by (simp split: if_splits)
  next
    case (fin n e)
    from assms(1) pow2_pos [of "e - 52"] have "0 \<le> r / pow2 (e - 52)" by simp
    then have "0 \<le> n" unfolding fin(3) by (rule round_half_even_nonneg)
    with fin(1) assms(2) pow2_pos [of "e - 52"] show ?thesis by simp
  qed
qed

lemma round64_positive:
  assumes "pow2 (- 1074) \<le> r"
  shows "round64 r = PosInf \<or> (\<exists>m. round64 r = Fin m \<and> pow2 (- 1074) \<le> m)"
proof -
  from assms pow2_pos [of "- 1074"] have r: "0 < r" by simp
  then have "r \<noteq> 0" by simp
  then show ?thesis
  proof (cases rule: round64_cases)
    case inf
    with r show ?thesis by simp
  next
    case (fin n e)
    have q: "0 < pow2 (e - 52)" by (rule pow2_pos)
    have "pow2 (e - 52) \<le> r"
    proof (cases "floor_log2 \<bar>r\<bar> \<le> - 1022")
      case True
      with fin(2) have "e = - 1022" by simp
      with assms show ?thesis by simp
    next
      case False
      with fin(2) have e: "e = floor_log2 r" using r by simp
      have "pow2 (e - 52) \<le> pow2 e" by (rule pow2_mono) simp
      also have "\<dots> \<le> r" unfolding e using r by (rule floor_log2_le)
      finally show ?thesis .
    qed
    with q have "1 \<le> r / pow2 (e - 52)" by (simp add: le_divide_eq)
    then have "1 / 2 < r / pow2 (e - 52)" by linarith
    then have n: "0 < n" unfolding fin(3) by (rule round_half_even_pos)
    with q have "0 < of_int n * pow2 (e - 52)" by simp
    with fin(1) round64_margin [of r "of_int n * pow2 (e - 52)"] show ?thesis by simp
  qed
qed

section \<open>The quantity invariant\<close>

lemma files_log_msg: "files (log_msg l m w) = files w"
  by (simp add: log_msg_def)

lemma round64_not_nan: "round64 r \<noteq> NaN"
  by (simp add: round64_def Let_def)

lemma grounded_positive: "grounded v \<Longrightarrow> positive v"
proof (cases v rule: grounded.cases)
  case (2 r)
  assume "grounded v"
  with 2 pow2_pos [of "- 1074"] show ?thesis by simp
qed simp_all

lemma grounded_float_cases:
  assumes "grounded (NFloat f)"
  obtains "f = PosInf" | r where "f = Fin r" "pow2 (- 1074) \<le> r"
  using assms by (cases f) simp_all

text \<open>The sum of a positive float and a float that is not negative.\<close>

lemma fadd_grounded:
  assumes "grounded (NFloat a)" and "b = PosInf \<or> (\<exists>m. b = Fin m \<and> 0 \<le> m)"
  shows "grounded (NFloat (fadd a b))" and "grounded (NFloat (fadd b a))"
proof -
  from assms(1) have "grounded (NFloat (fadd a b)) \<and> grounded (NFloat (fadd b a))"
  proof (cases rule: grounded_float_cases)
    case 1
    with assms(2) show ?thesis by auto
  next
    case (2 r)
    from assms(2) show ?thesis
    proof
      assume "b = PosInf"
      with 2 show ?thesis by simp
    next
      assume "\<exists>m. b = Fin m \<and> 0 \<le> m"
      then obtain m where m: "b = Fin m" "0 \<le> m" by blast
      with 2 have "pow2 (- 1074) \<le> r + m" by simp
      from round64_positive [OF this] have "grounded (NFloat (round64 (r + m)))" by auto
      with 2 m show ?thesis by (simp add: add.commute)
    qed
  qed
  then show "grounded (NFloat (fadd a b))" and "grounded (NFloat (fadd b a))" by simp_all
qed

lemma int_to_float_nonneg:
  assumes "0 \<le> n" and "int_to_float n = Inr f"
  shows "\<exists>m. f = Fin m \<and> 0 \<le> m"
proof -
  from assms(2) obtain m where m: "round64 (of_int n) = Fin m" "f = Fin m"
    by (auto simp: int_to_float_def split: pyfloat.splits)
  from assms(1) have "(0::rat) \<le> of_int n" by simp
  from round64_nonneg [OF this m(1)] m(2) show ?thesis by simp
qed

lemma adds_positive_grounded:
  assumes "adds_positive qty" and "as_num qty = Some q"
  shows "grounded q"
proof (cases q)
  case (NInt n)
  with assms show ?thesis by (simp add: adds_positive_def)
next
  case (NFloat f)
  with assms have b: "binary64 f" and p: "positive (NFloat f)"
    by (simp_all add: adds_positive_def)
  show ?thesis
  proof (cases f)
    case (Fin r)
    with b p have "round64 r = Fin r" "0 < r" by simp_all
    then have "pow2 (- 1074) \<le> r" by (rule round64_margin)
    with NFloat Fin show ?thesis by simp
  qed (use NFloat p in simp_all)
qed

lemma py_add_grounded:
  assumes "old = NInt 0 \<or> grounded old" and "grounded q" and "py_add old q = Inr v"
  shows "grounded v"
proof (cases old)
  case (NInt a)
  with assms(1) have a: "0 \<le> a" by auto
  show ?thesis
  proof (cases q)
    case q: (NInt b)
    with NInt assms a show ?thesis by auto
  next
    case q: (NFloat g)
    with NInt assms(3) obtain f where f: "int_to_float a = Inr f" "v = NFloat (fadd f g)"
      by (auto split: sum.splits)
    from int_to_float_nonneg [OF a f(1)] have "f = PosInf \<or> (\<exists>m. f = Fin m \<and> 0 \<le> m)"
      by blast
    with assms(2) q f(2) show ?thesis by (simp add: fadd_grounded)
  qed
next
  case (NFloat f)
  with assms(1) have gf: "grounded (NFloat f)" by simp
  show ?thesis
  proof (cases q)
    case q: (NInt b)
    with assms(2) have b: "0 \<le> b" by simp
    from q NFloat assms(3) obtain g where g: "int_to_float b = Inr g" "v = NFloat (fadd f g)"
      by (auto split: sum.splits)
    from int_to_float_nonneg [OF b g(1)] have "g = PosInf \<or> (\<exists>m. g = Fin m \<and> 0 \<le> m)"
      by blast
    with gf g(2) show ?thesis by (simp add: fadd_grounded)
  next
    case q: (NFloat g)
    from assms(2) q have "grounded (NFloat g)" by simp
    then have "g = PosInf \<or> (\<exists>m. g = Fin m \<and> 0 \<le> m)"
    proof (cases rule: grounded_float_cases)
      case (2 r)
      with pow2_pos [of "- 1074"] show ?thesis by simp
    qed simp
    with gf q NFloat assms(3) show ?thesis by (auto simp: fadd_grounded)
  qed
qed

lemma py_sub_grounded:
  assumes "grounded v" and "py_sub v q = Inr v'" and "\<not> num_le v' 0"
  shows "grounded v'"
proof (cases v)
  case (NInt a)
  with assms show ?thesis by auto
next
  case (NFloat f)
  with assms(2) obtain g where g: "int_to_float q = Inr g" "v' = NFloat (fsub f g)"
    by (auto split: sum.splits)
  from g(1) have "\<exists>m. g = Fin m"
    by (cases "round64 (of_int q)") (auto simp: int_to_float_def)
  then obtain m where m: "g = Fin m" by blast
  from NFloat assms(1) have "grounded (NFloat f)" by simp
  then show ?thesis
  proof (cases rule: grounded_float_cases)
    case 1
    with g(2) m show ?thesis by (simp add: fsub_def)
  next
    case (2 r)
    with g(2) m have v': "v' = NFloat (round64 (r - m))" by (simp add: fsub_def)
    show ?thesis
    proof (cases "round64 (r - m)")
      case (Fin x)
      with v' assms(3) have "0 < x" by simp
      with Fin have "pow2 (- 1074) \<le> x" by (rule round64_margin)
      with v' Fin show ?thesis by simp
    next
      case NaN
      with round64_not_nan [of "r - m"] show ?thesis by simp
    qed (use v' assms(3) in simp_all)
  qed
qed

lemma grounded_store_Nil: "grounded_store []"
  by (simp add: grounded_store_def)

lemma grounded_store_set:
  "grounded_store s \<Longrightarrow> grounded v \<Longrightarrow> grounded_store (dict_set k v s)"
  by (induction s) (auto simp: grounded_store_def)

lemma grounded_store_del: "grounded_store s \<Longrightarrow> grounded_store (dict_del k s)"
  by (induction s) (auto simp: grounded_store_def)

lemma grounded_store_get:
  "grounded_store s \<Longrightarrow> dict_get s k = Some v \<Longrightarrow> grounded v"
  by (induction s) (auto simp: grounded_store_def split: if_splits)

lemma grounded_store_positive: "grounded_store s \<Longrightarrow> all_positive s"
  by (induction s) (auto simp: grounded_store_def all_positive_def grounded_positive)

lemma load_items_grounded:
  "grounded_store (stock_data w) \<Longrightarrow> list_all (\<lambda>(k, v). loads_positive v) items \<Longrightarrow>
     grounded_store (stock_data (fst (load_items w items)))
     \<and> files (fst (load_items w items)) = files w"
proof (induction items arbitrary: w)
  case Nil
  then show ?case by simp
next
  case (Cons p items)
  obtain k v where p: "p = (k, v)" by (cases p)
  from Cons.prems p have lv: "loads_positive v"
    and rest: "list_all (\<lambda>(k, v). loads_positive v) items" by simp_all
  show ?case
  proof (cases "py_int v")
    case (Inr n)
    with lv have "grounded (NInt n)" by (simp add: loads_positive_def)
    with Cons.prems(1) have "grounded_store (dict_set k (NInt n) (stock_data w))"
      by (rule grounded_store_set)
    with Cons.IH [of "w\<lparr>stock_data := dict_set k (NInt n) (stock_data w)\<rparr>"] rest p Inr
    show ?thesis by simp
  next
    case (Inl e)
    show ?thesis
    proof (cases "caught e")
      case True
      with Cons.IH [of "log_msg WARNING ''load_data: invalid quantity for %r -> %r, skipping'' w"]
        Cons.prems(1) rest p Inl
      show ?thesis by (simp add: stock_data_log_msg files_log_msg)
    next
      case False
      with Cons.prems(1) p Inl show ?thesis by simp
    qed
  qed
qed

lemma add_item_grounded:
  assumes "grounded_store (stock_data w)"
    and "is_str item \<and> adds_positive qty \<or> \<not> is_str item"
  shows "grounded_store (stock_data (fst (add_item w item qty logs)))
         \<and> files (fst (add_item w item qty logs)) = files w"
proof (cases "is_str item \<and> is_numeric qty")
  case False
  then have "\<not> is_str item \<or> \<not> is_numeric qty" by blast
  then have "stock_data (fst (add_item w item qty logs)) = stock_data w"
    by (cases item; cases "as_num qty")
       (simp_all add: add_item_def is_str_def is_numeric_def stock_data_log_msg)
  moreover from \<open>\<not> is_str item \<or> \<not> is_numeric qty\<close>
  have "files (fst (add_item w item qty logs)) = files w"
    by (cases item; cases "as_num qty")
       (simp_all add: add_item_def is_str_def is_numeric_def files_log_msg)
  ultimately show ?thesis using assms(1) by simp
next
  case True
  then obtain k q where item: "item = PStr k" and q: "as_num qty = Some q"
    by (cases item; cases "as_num qty") (simp_all add: is_str_def is_numeric_def)
  from True assms(2) q have gq: "grounded q" by (simp add: adds_positive_grounded)
  have old: "get_default (stock_data w) k = NInt 0 \<or> grounded (get_default (stock_data w) k)"
  proof (cases "dict_get (stock_data w) k")
    case None
    then show ?thesis by (simp add: get_default_def)
  next
    case (Some v)
    with assms(1) have "grounded v" by (rule grounded_store_get)
    with Some show ?thesis by (simp add: get_default_def)
  qed
  show ?thesis
  proof (cases "py_add (get_default (stock_data w) k) q")
    case (Inl e)
    with item q assms(1) show ?thesis by (simp add: add_item_def)
  next
    case (Inr v)
    from py_add_grounded [OF old gq Inr] assms(1)
    have "grounded_store (dict_set k v (stock_data w))" by (simp add: grounded_store_set)
    with item q Inr show ?thesis
      by (cases logs) (simp_all add: add_item_def Let_def stock_data_log_msg files_log_msg)
  qed
qed

lemma remove_item_grounded:
  assumes "grounded_store (stock_data w)"
  shows "grounded_store (stock_data (fst (remove_item w item qty)))
         \<and> files (fst (remove_item w item qty)) = files w"
proof (cases item)
  case (PStr k)
  show ?thesis
  proof (cases "py_int qty")
    case (Inl e)
    with PStr assms show ?thesis
      by (simp add: remove_item_def stock_data_log_msg files_log_msg)
  next
    case (Inr q)
    show ?thesis
    proof (cases "dict_get (stock_data w) k")
      case None
      with PStr Inr assms show ?thesis
        by (simp add: remove_item_def stock_data_log_msg files_log_msg)
    next
      case (Some v)
      with assms have gv: "grounded v" by (rule grounded_store_get)
      show ?thesis
      proof (cases "py_sub v q")
        case (Inl e)
        with PStr Inr Some assms show ?thesis by (simp add: remove_item_def)
      next
        case sub: (Inr v')
        from assms have del: "grounded_store (dict_del k (stock_data w))"
          by (rule grounded_store_del)
        have "\<not> num_le v' 0 \<Longrightarrow> grounded_store (dict_set k v' (stock_data w))"
          using py_sub_grounded [OF gv sub] assms by (simp add: grounded_store_set)
        with del PStr Inr Some sub show ?thesis
          by (simp add: remove_item_def stock_data_log_msg files_log_msg)
      qed
    qed
  qed
qed (simp_all add: remove_item_def stock_data_log_msg files_log_msg assms)

lemma load_data_grounded:
  assumes "grounded_store (stock_data w)"
    and "case path_of path of Inr p \<Rightarrow> file_positive (files w p) | Inl e \<Rightarrow> True"
  shows "grounded_store (stock_data (fst (load_data w path)))
         \<and> files (fst (load_data w path)) = files w"
proof (cases "path_of path")
  case (Inl e)
  with assms(1) show ?thesis by (simp add: load_data_def)
next
  case (Inr p)
  show ?thesis
  proof (cases "found w p")
    case (Parsed data)
    then have node: "files w p = Parsed data" by (rule found_Parsed)
    show ?thesis
    proof (cases data)
      case (PDict items)
      with assms(2) Inr node have "list_all (\<lambda>(k, v). loads_positive v) items"
        by (simp add: file_positive_def)
      with load_items_grounded [of "w\<lparr>stock_data := []\<rparr>" items]
      have "grounded_store (stock_data (fst (load_items (w\<lparr>stock_data := []\<rparr>) items)))
            \<and> files (fst (load_items (w\<lparr>stock_data := []\<rparr>) items)) = files w"
        by (simp add: grounded_store_Nil)
      with Inr Parsed PDict show ?thesis by (simp add: load_data_def)
    qed (simp_all add: load_data_def Inr Parsed grounded_store_Nil stock_data_log_msg
           files_log_msg)
  qed (simp_all add: load_data_def Inr grounded_store_Nil stock_data_log_msg files_log_msg
         assms(1))
qed

lemma step_grounded:
  assumes "grounded_store (stock_data w)" and "admissible (files w) c"
  shows "grounded_store (stock_data (fst (step w c))) \<and> files (fst (step w c)) = files w"
proof (cases c)
  case (AddItem item qty logs)
  with assms add_item_grounded [of w item qty logs] show ?thesis
    by (cases "add_item w item qty logs") simp
next
  case (RemoveItem item qty)
  with assms remove_item_grounded [of w item qty] show ?thesis by simp
next
  case (LoadData path)
  with assms load_data_grounded [of w path] show ?thesis by simp
qed

lemma run_grounded:
  "grounded_store (stock_data w) \<Longrightarrow> list_all (admissible (files w)) cs \<Longrightarrow>
     grounded_store (stock_data (run w cs))"
proof (induction cs arbitrary: w)
  case Nil
  then show ?case by simp
next
  case (Cons c cs)
  from Cons.prems have adm: "admissible (files w) c"
    and rest: "list_all (admissible (files w)) cs" by simp_all
  from step_grounded [OF Cons.prems(1) adm]
  have p: "grounded_store (stock_data (fst (step w c)))"
    and f: "files (fst (step w c)) = files w" by simp_all
  show ?case
  proof (cases "snd (step w c)")
    case (Inl e)
    with p show ?thesis by (cases "step w c") simp
  next
    case (Inr u)
    from Cons.IH [OF p] rest f have "grounded_store (stock_data (run (fst (step w c)) cs))"
      by simp
    with Inr show ?thesis by (cases "step w c") simp
  qed
qed

text \<open>
  C1, as the code has it.  Start from the empty inventory and make any sequence of
  \<^verbatim>\<open>add_item\<close>, \<^verbatim>\<open>remove_item\<close> and \<^verbatim>\<open>load_data\<close> calls in which every \<^verbatim>\<open>add_item\<close>
  that passes the type checks adds a \<^verbatim>\<open>qty > 0\<close>, an integer or a float, and every
  value that \<^verbatim>\<open>load_data\<close> coerces is coerced to an integer \<open>> 0\<close>.  Then every key
  present in the mapping has a quantity strictly greater than 0.  \<^verbatim>\<open>remove_item\<close>
  needs no condition: it deletes the key when the quantity reaches \<open>\<le> 0\<close>.
\<close>

theorem positive_invariant:
  assumes "list_all (admissible fs) cs"
  shows "all_positive (stock_data (run (init fs wr) cs))"
proof -
  have "grounded_store (stock_data (init fs wr))" by (simp add: init_def grounded_store_Nil)
  moreover have "files (init fs wr) = fs" by (simp add: init_def)
  ultimately have "grounded_store (stock_data (run (init fs wr) cs))"
    using assms run_grounded [of "init fs wr" cs] by simp
  then show ?thesis by (rule grounded_store_positive)
qed

theorem positive_invariant_witness:
  "list_all (admissible main_files) main_calls
   \<and> stock_data (run (init main_files (\<lambda>_. WriteOk)) main_calls)
       = [(''apple'', NFloat (Fin (1 / 2))), (''banana'', NInt 2),
          (''pear'', NFloat (Fin (3 / 4)))]
   \<and> all_positive (stock_data (run (init main_files (\<lambda>_. WriteOk)) main_calls))"
proof -
  have h: "list_all (admissible main_files) main_calls" by code_simp
  have s: "stock_data (run (init main_files (\<lambda>_. WriteOk)) main_calls)
             = [(''apple'', NFloat (Fin (1 / 2))), (''banana'', NInt 2),
                (''pear'', NFloat (Fin (3 / 4)))]" by code_simp
  from positive_invariant [OF h, of "\<lambda>_. WriteOk"] h s show ?thesis by simp
qed

theorem zero_quantity_counterexample:
  "stock_data (run fresh [AddItem (PStr ''x'') (PInt 0) LNone]) = [(''x'', NInt 0)]
   \<and> \<not> all_positive (stock_data (run fresh [AddItem (PStr ''x'') (PInt 0) LNone]))"
  by code_simp

section \<open>Saving, then loading\<close>

lemma dict_set_new: "k \<notin> set (map fst s) \<Longrightarrow> dict_set k v s = s @ [(k, v)]"
  by (induction s) auto

lemma py_int_pyval_of_num: "py_int (pyval_of_num v) = num_int v"
  by (cases v) simp_all

lemma num_int_finite: "finite_num v \<Longrightarrow> \<exists>n. num_int v = Inr n \<and> coerced v = NInt n"
  by (cases v rule: finite_num.cases) simp_all

lemma load_items_saved:
  "distinct (map fst (stock_data w) @ map fst xs) \<Longrightarrow> finite_store xs \<Longrightarrow>
     snd (load_items w (map (\<lambda>(k, v). (k, pyval_of_num v)) xs)) = Inr ()
     \<and> stock_data (fst (load_items w (map (\<lambda>(k, v). (k, pyval_of_num v)) xs)))
         = stock_data w @ map (\<lambda>(k, v). (k, coerced v)) xs"
proof (induction xs arbitrary: w)
  case Nil
  then show ?case by simp
next
  case (Cons p xs)
  obtain k v where p: "p = (k, v)" by (cases p)
  from Cons.prems p have fin: "finite_num v" and rest: "finite_store xs"
    by (simp_all add: finite_store_def)
  from num_int_finite [OF fin] obtain n where n: "num_int v = Inr n" "coerced v = NInt n"
    by blast
  let ?w = "w\<lparr>stock_data := dict_set k (NInt n) (stock_data w)\<rparr>"
  from Cons.prems p have new: "k \<notin> set (map fst (stock_data w))" by auto
  then have set: "dict_set k (NInt n) (stock_data w) = stock_data w @ [(k, NInt n)]"
    by (rule dict_set_new)
  from Cons.prems p have "distinct (map fst (stock_data ?w) @ map fst xs)"
    by (auto simp: set)
  from Cons.IH [OF this rest] p n set show ?case
    by (simp add: py_int_pyval_of_num)
qed

text \<open>
  C2, as the code has it.  For every mapping state whose quantities are integers or
  finite floats, \<^verbatim>\<open>save_data(path)\<close> followed by \<^verbatim>\<open>load_data(path)\<close> on the same path,
  the write succeeding, returns normally and leaves the mapping with the same keys in
  the same order, each quantity coerced to an integer (a float truncated toward zero).
  A mapping is a \<^verbatim>\<open>dict\<close>: it has each key once.  The write succeeds when \<^verbatim>\<open>open\<close>,
  \<^verbatim>\<open>json.dump\<close> and the closing of the file all return.
\<close>

theorem save_load_roundtrip:
  assumes "distinct (map fst (stock_data w))"
    and "finite_store (stock_data w)"
    and "write_outcome w p = WriteOk"
  shows "snd (save_data w (PStr p)) = Inr ()
         \<and> snd (load_data (fst (save_data w (PStr p))) (PStr p)) = Inr ()
         \<and> stock_data (fst (load_data (fst (save_data w (PStr p))) (PStr p)))
             = map (\<lambda>(k, v). (k, coerced v)) (stock_data w)"
proof -
  let ?saved = "log_msg INFO ''save_data: inventory data saved to %r''
                  (w\<lparr>files := (files w)(p := Parsed (json_of (stock_data w)))\<rparr>)"
  have save: "save_data w (PStr p) = (?saved, Inr ())"
    using assms(3) by (simp add: save_data_def)
  from assms(3) have name: "CHR 0x00 \<notin> set p"
    by (simp add: write_outcome_def split: if_splits)
  have load: "load_data ?saved (PStr p)
                = load_items (?saved\<lparr>stock_data := []\<rparr>)
                    (map (\<lambda>(k, v). (k, pyval_of_num v)) (stock_data w))"
    by (simp add: load_data_def found_def name files_log_msg json_of_def)
  from load_items_saved [of "?saved\<lparr>stock_data := []\<rparr>" "stock_data w"] assms(1,2)
  have "snd (load_data ?saved (PStr p)) = Inr ()
        \<and> stock_data (fst (load_data ?saved (PStr p)))
            = map (\<lambda>(k, v). (k, coerced v)) (stock_data w)"
    by (simp add: load)
  with save show ?thesis by simp
qed

theorem save_load_roundtrip_witness:
  "distinct (map fst (stock_data mixed_world))
   \<and> finite_store (stock_data mixed_world)
   \<and> write_outcome mixed_world ''inventory.json'' = WriteOk
   \<and> snd (save_data mixed_world (PStr ''inventory.json'')) = Inr ()
   \<and> snd (load_data (fst (save_data mixed_world (PStr ''inventory.json'')))
             (PStr ''inventory.json'')) = Inr ()
   \<and> stock_data (fst (load_data (fst (save_data mixed_world (PStr ''inventory.json'')))
                          (PStr ''inventory.json'')))
       = [(''a'', NInt 2), (''b'', NInt 2)]"
proof -
  have d: "distinct (map fst (stock_data mixed_world))"
    and f: "finite_store (stock_data mixed_world)"
    by (simp_all add: stock_data_mixed_world finite_store_def)
  have w: "write_outcome mixed_world ''inventory.json'' = WriteOk" by code_simp
  have t: "trunc_rat (5 / 2) = 2" by code_simp
  from save_load_roundtrip [OF d f w] d f w show ?thesis
    by (simp add: stock_data_mixed_world t)
qed

theorem save_load_nan_counterexample:
  "quantity nan_world ''x'' = Some (NFloat NaN)
   \<and> write_outcome nan_world ''inventory.json'' = WriteOk
   \<and> snd (save_data nan_world (PStr ''inventory.json'')) = Inr ()
   \<and> snd (load_data (fst (save_data nan_world (PStr ''inventory.json'')))
             (PStr ''inventory.json'')) = Inr ()
   \<and> quantity (fst (load_data (fst (save_data nan_world (PStr ''inventory.json'')))
                        (PStr ''inventory.json''))) ''x'' = None"
  by code_simp

section \<open>Unusable files, and keys kept once\<close>

text \<open>
  The files \<^verbatim>\<open>load_data\<close> cannot use: when the file is missing, cannot be read, is not
  JSON or does not hold an object, the mapping is left empty and the call returns.
\<close>

lemma load_data_degrades:
  assumes "found w p = Absent \<or> found w p = Unreadable \<or> found w p = Corrupt
           \<or> (\<exists>data. found w p = Parsed data \<and> (\<forall>items. data \<noteq> PDict items))"
  shows "stock_data (fst (load_data w (PStr p))) = [] \<and> snd (load_data w (PStr p)) = Inr ()"
proof (cases "found w p")
  case (Parsed data)
  with assms have "\<forall>items. data \<noteq> PDict items" by simp
  with Parsed show ?thesis
    by (cases data) (simp_all add: load_data_def stock_data_log_msg)
qed (use assms in \<open>simp_all add: load_data_def stock_data_log_msg\<close>)

text \<open>Every call keeps each key once in the mapping, as a \<^verbatim>\<open>dict\<close> does.\<close>

lemma load_items_distinct:
  "distinct (map fst (stock_data w)) \<Longrightarrow>
     distinct (map fst (stock_data (fst (load_items w items))))"
proof (induction items arbitrary: w)
  case Nil
  then show ?case by simp
next
  case (Cons p items)
  obtain k v where p: "p = (k, v)" by (cases p)
  show ?case
  proof (cases "py_int v")
    case (Inr n)
    from Cons.prems have "distinct (map fst (dict_set k (NInt n) (stock_data w)))"
      by (rule distinct_dict_set)
    with Cons.IH [of "w\<lparr>stock_data := dict_set k (NInt n) (stock_data w)\<rparr>"] p Inr
    show ?thesis by simp
  next
    case (Inl e)
    with Cons.IH [of "log_msg WARNING ''load_data: invalid quantity for %r -> %r, skipping'' w"]
      Cons.prems p
    show ?thesis by (cases "caught e") (simp_all add: stock_data_log_msg)
  qed
qed

lemma step_distinct:
  assumes "distinct (map fst (stock_data w))"
  shows "distinct (map fst (stock_data (fst (step w c))))"
proof (cases c)
  case (AddItem item qty logs)
  have "distinct (map fst (stock_data (fst (add_item w item qty logs))))"
    using assms
    by (cases logs)
       (auto simp: add_item_def Let_def stock_data_log_msg distinct_dict_set
             split: pyval.splits option.splits sum.splits)
  with AddItem show ?thesis by (cases "add_item w item qty logs") simp
next
  case (RemoveItem item qty)
  have "distinct (map fst (stock_data (fst (remove_item w item qty))))"
    using assms
    by (auto simp: remove_item_def stock_data_log_msg distinct_dict_set distinct_dict_del
             split: pyval.splits option.splits sum.splits)
  with RemoveItem show ?thesis by simp
next
  case (LoadData path)
  have "distinct (map fst (stock_data (fst (load_data w path))))"
  proof (cases "path_of path")
    case (Inl e)
    with assms show ?thesis by (simp add: load_data_def)
  next
    case (Inr p)
    have "distinct (map fst (stock_data (fst (load_items (w\<lparr>stock_data := []\<rparr>) items))))"
      for items
      by (rule load_items_distinct) simp
    with Inr assms show ?thesis
      by (simp add: load_data_def stock_data_log_msg split: fnode.splits pyval.splits)
  qed
  with LoadData show ?thesis by simp
qed

lemma run_distinct:
  "distinct (map fst (stock_data w)) \<Longrightarrow> distinct (map fst (stock_data (run w cs)))"
proof (induction cs arbitrary: w)
  case Nil
  then show ?case by simp
next
  case (Cons c cs)
  from step_distinct [OF Cons.prems, of c]
  have d: "distinct (map fst (stock_data (fst (step w c))))" .
  show ?case
  proof (cases "snd (step w c)")
    case (Inl e)
    with d show ?thesis by (cases "step w c") simp
  next
    case (Inr u)
    with Cons.IH [OF d] show ?thesis by (cases "step w c") simp
  qed
qed

section \<open>Returning normally\<close>




lemma logged_log_msg_after: "logger w' = logger w \<Longrightarrow> logged l w (log_msg l m w')"
  by (simp add: logged_def log_msg_def)

lemma logged_log_msg_last: "logger w' = logger w \<Longrightarrow> logged l w (log_msg l m (log_msg l' m' w'))"
  by (simp add: logged_def log_msg_def)





























end
